theory Spec2Isabelle
  imports Main "HOL-Library.Word"
begin

section \<open>BlinkyTape: the serial pixel protocol of blinkytape.py\<close>

text \<open>
  The class \<^verbatim>\<open>BlinkyTape\<close> drives an LED strip over a serial port. Pixel data
  travels as byte triplets in the range 0-254; a triplet ending in 255 makes the
  strip display what it has received. The development embeds the class method by
  method: the object is a record, a method takes the object and returns the
  exception it raised (if any) together with the object as the method left it, and
  the serial port is the list of the calls it has received, oldest first.
\<close>

subsection \<open>Bytes, exceptions and the serial port\<close>

type_synonym byte = "8 word"

datatype error =
    IOError string
  | RuntimeError string
  | ValueError string
  | IndexError string
  | SerialException string

text \<open>
  \<^verbatim>\<open>bytearray(iterable_of_ints)\<close>: every element has to be in \<^verbatim>\<open>range(0, 256)\<close>,
  otherwise Python raises \<^verbatim>\<open>ValueError\<close>.
\<close>

definition bytearray :: "int list \<Rightarrow> error + byte list" where
  "bytearray xs =
     (if list_all (\<lambda>x. 0 \<le> x \<and> x < 256) xs
      then Inr (map word_of_int xs)
      else Inl (ValueError ''byte must be in range(0, 256)''))"

text \<open>
  The calls a \<^verbatim>\<open>serial.Serial\<close> object receives from the class. The port is taken
  to accept every call: it records them and raises nothing.
\<close>

datatype serial_call =
    Write "byte list"
  | Flush
  | FlushInput

record BlinkyTape =
  port :: string
  ledCount :: int
  buffered :: bool
  buf :: "byte list"
  serial :: "serial_call list"

subsection \<open>show\<close>

definition control :: "byte list" where
  "control = [0, 0, 255]"

text \<open>
  \<^verbatim>\<open>show(self)\<close>, lines 99-112. In buffered mode one write carries the buffer and
  the control triplet, and the buffer is reset; otherwise the control triplet is
  written alone. Both serial buffers are flushed afterwards.
\<close>

definition show_tape :: "BlinkyTape \<Rightarrow> BlinkyTape" where
  "show_tape s =
     (let s1 = (if buffered s
                then s\<lparr>serial := serial s @ [Write (buf s @ control)], buf := []\<rparr>
                else s\<lparr>serial := serial s @ [Write control]\<rparr>)
      in s1\<lparr>serial := serial s1 @ [Flush, FlushInput]\<rparr>)"

subsection \<open>sendPixel\<close>

text \<open>
  Lines 77-89 of \<^verbatim>\<open>sendPixel\<close>: the three channels are raised to 0 when negative,
  then lowered to 254 when 255 or more, then packed with \<^verbatim>\<open>bytearray\<close>.
\<close>

definition sendPixel_data :: "int \<Rightarrow> int \<Rightarrow> int \<Rightarrow> error + byte list" where
  "sendPixel_data r g b =
     (let r = (if r < 0 then 0 else r);
          g = (if g < 0 then 0 else g);
          b = (if b < 0 then 0 else b);
          r = (if r \<ge> 255 then 254 else r);
          g = (if g \<ge> 255 then 254 else g);
          b = (if b \<ge> 255 then 254 else b)
      in bytearray [r, g, b])"

text \<open>
  \<^verbatim>\<open>sendPixel(self, r, g, b)\<close>, lines 70-97. The result is the exception raised
  (\<open>None\<close> for a normal return) and the object afterwards.
\<close>

definition sendPixel :: "BlinkyTape \<Rightarrow> int \<Rightarrow> int \<Rightarrow> int \<Rightarrow> error option \<times> BlinkyTape" where
  "sendPixel s r g b =
     (case sendPixel_data r g b of
        Inl e \<Rightarrow> (Some e, s)
      | Inr data \<Rightarrow>
          if int (length data) * 3 < ledCount s
          then (if buffered s
                then (None, s\<lparr>buf := buf s @ data\<rparr>)
                else (None, s\<lparr>serial := serial s @ [Write data, Flush]\<rparr>))
          else (Some (RuntimeError ''Attempting to set pixel outside range!''), s))"

text \<open>
  A caller's loop \<^verbatim>\<open>for (r, g, b) in ps: tape.sendPixel(r, g, b)\<close>: the first
  exception ends it, and the object stays as the calls before it left it.
\<close>

fun sendPixels :: "BlinkyTape \<Rightarrow> (int \<times> int \<times> int) list \<Rightarrow> error option \<times> BlinkyTape" where
  "sendPixels s [] = (None, s)"
| "sendPixels s ((r, g, b) # ps) =
     (case sendPixel s r g b of
        (Some e, s') \<Rightarrow> (Some e, s')
      | (None, s') \<Rightarrow> sendPixels s' ps)"

subsection \<open>send\_list\<close>

text \<open>
  The loop of \<^verbatim>\<open>send_list\<close>, lines 58-66, with \<^verbatim>\<open>data\<close> as the accumulator. Only
  the upper bound is clamped here, so a negative channel reaches \<^verbatim>\<open>bytearray\<close>
  and raises \<^verbatim>\<open>ValueError\<close>.
\<close>

fun send_list_data :: "(int \<times> int \<times> int) list \<Rightarrow> byte list \<Rightarrow> error + byte list" where
  "send_list_data [] data = Inr data"
| "send_list_data ((r, g, b) # colors) data =
     (let r = (if r \<ge> 255 then 254 else r);
          g = (if g \<ge> 255 then 254 else g);
          b = (if b \<ge> 255 then 254 else b)
      in case bytearray [r, g, b] of
           Inl e \<Rightarrow> Inl e
         | Inr d \<Rightarrow> send_list_data colors (data @ d))"

text \<open>\<^verbatim>\<open>send_list(self, colors)\<close>, lines 57-68.\<close>

definition send_list :: "BlinkyTape \<Rightarrow> (int \<times> int \<times> int) list \<Rightarrow> error option \<times> BlinkyTape" where
  "send_list s colors =
     (case send_list_data colors [] of
        Inl e \<Rightarrow> (Some e, s)
      | Inr data \<Rightarrow> (None, show_tape (s\<lparr>serial := serial s @ [Write data]\<rparr>)))"

subsection \<open>displayColor\<close>

text \<open>
  \<^verbatim>\<open>displayColor(self, r, g, b)\<close>, lines 114-118: \<^verbatim>\<open>range(0, self.ledCount)\<close> has
  \<open>nat (ledCount s)\<close> elements (none when \<^verbatim>\<open>ledCount\<close> is negative).
\<close>

definition displayColor :: "BlinkyTape \<Rightarrow> int \<Rightarrow> int \<Rightarrow> int \<Rightarrow> error option \<times> BlinkyTape" where
  "displayColor s r g b =
     (case sendPixels s (replicate (nat (ledCount s)) (r, g, b)) of
        (Some e, s') \<Rightarrow> (Some e, s')
      | (None, s') \<Rightarrow> (None, show_tape s'))"

subsection \<open>The constructor\<close>

text \<open>
  The constructor depends on two collaborators outside the class: \<^verbatim>\<open>listPorts\<close>
  (module \<^verbatim>\<open>listports\<close>) and \<^verbatim>\<open>serial.Serial\<close>. Both are parameters here. The
  candidate ports may change between two calls of \<^verbatim>\<open>listPorts\<close>, so the host gives
  the result of each call by its number (0 for the first call ever made), and says
  which ports can be opened. What has happened on the host so far is the number of
  \<^verbatim>\<open>listPorts\<close> calls and the list of ports opened, with their baud rates.
\<close>

record host =
  listPorts :: "nat \<Rightarrow> string list"
  openable :: "string \<Rightarrow> bool"

record world =
  listPorts_calls :: nat
  opened :: "(string \<times> int) list"

text \<open>
  \<^verbatim>\<open>__init__(self, port=None, ledCount=60, buffered=True)\<close>, lines 18-55. Line 43
  calls \<^verbatim>\<open>listPorts\<close>, and line 47 calls it again and takes element 0 of the new
  result, which raises \<^verbatim>\<open>IndexError\<close> when that result is empty.
\<close>

definition init ::
  "host \<Rightarrow> world \<Rightarrow> string option \<Rightarrow> int \<Rightarrow> bool \<Rightarrow> (error + BlinkyTape) \<times> world" where
  "init h w port_arg ledCount_arg buffered_arg =
     (let (found, w) =
        (case port_arg of
           None \<Rightarrow>
             (let ports = listPorts h (listPorts_calls w);
                  w = w\<lparr>listPorts_calls := Suc (listPorts_calls w)\<rparr>
              in if length ports = 0
                 then (Inl (IOError ''BlinkyTape not found!''), w)
                 else (let again = listPorts h (listPorts_calls w);
                           w = w\<lparr>listPorts_calls := Suc (listPorts_calls w)\<rparr>
                       in case again of
                            [] \<Rightarrow> (Inl (IndexError ''list index out of range''), w)
                          | p # _ \<Rightarrow> (Inr p, w)))
         | Some p \<Rightarrow> (Inr p, w))
      in case found of
           Inl e \<Rightarrow> (Inl e, w)
         | Inr p \<Rightarrow>
             if openable h p
             then (Inr (show_tape \<lparr>port = p, ledCount = ledCount_arg, buffered = buffered_arg,
                                   buf = [], serial = []\<rparr>),
                   w\<lparr>opened := opened w @ [(p, 115200)]\<rparr>)
             else (Inl (SerialException ''could not open port''), w))"

subsection \<open>Sequences of calls on one object\<close>

text \<open>
  A caller may catch an exception and go on using the object, so a run applies each
  call to the object as the previous call left it, raised or not.
\<close>

datatype call =
    SendPixel int int int
  | SendList "(int \<times> int \<times> int) list"
  | Show
  | DisplayColor int int int

fun do_call :: "BlinkyTape \<Rightarrow> call \<Rightarrow> error option \<times> BlinkyTape" where
  "do_call s (SendPixel r g b) = sendPixel s r g b"
| "do_call s (SendList colors) = send_list s colors"
| "do_call s Show = (None, show_tape s)"
| "do_call s (DisplayColor r g b) = displayColor s r g b"

fun run :: "BlinkyTape \<Rightarrow> call list \<Rightarrow> BlinkyTape" where
  "run s [] = s"
| "run s (c # cs) = run (snd (do_call s c)) cs"

text \<open>The payloads of the writes among the calls a port received, in order.\<close>

fun writes :: "serial_call list \<Rightarrow> byte list list" where
  "writes [] = []"
| "writes (Write d # cs) = d # writes cs"
| "writes (_ # cs) = writes cs"

section \<open>Properties\<close>

subsection \<open>The encoding of one pixel\<close>

lemma clamp_twice:
  "(if (if x < 0 then 0 else x) \<ge> 255 then 254 else (if x < 0 then 0 else x))
     = max 0 (min 254 (x::int))"
  by (auto simp: max_def min_def)

lemma sendPixel_data_eq:
  "sendPixel_data r g b =
     Inr [word_of_int (max 0 (min 254 r)), word_of_int (max 0 (min 254 g)),
          word_of_int (max 0 (min 254 b))]"
proof -
  have "list_all (\<lambda>x. 0 \<le> x \<and> x < 256) [max 0 (min 254 r), max 0 (min 254 g), max 0 (min 254 b)]"
    by (simp add: min_def)
  then show ?thesis
    unfolding sendPixel_data_def Let_def clamp_twice bytearray_def by simp
qed

lemma unat_byte_of_int: "0 \<le> x \<Longrightarrow> x \<le> 255 \<Longrightarrow> unat (word_of_int x :: byte) = nat x"
proof -
  assume "0 \<le> x" "x \<le> 255"
  then have "x mod 2 ^ 8 = x"
    by simp
  then show ?thesis
    by (simp add: unat_eq_nat_uint uint_word_of_int take_bit_eq_mod)
qed

lemma channel_byte:
  fixes x :: int
  defines "c \<equiv> (word_of_int (max 0 (min 254 x)) :: byte)"
  shows "unat c \<le> 254" and "255 \<le> x \<Longrightarrow> c = 254" and "x < 0 \<Longrightarrow> c = 0"
proof -
  have "unat c = nat (max 0 (min 254 x))"
    unfolding c_def by (rule unat_byte_of_int) (simp_all add: min_def)
  moreover have "max 0 (min 254 x) \<le> 254"
    by simp
  ultimately show "unat c \<le> 254"
    by linarith
  show "255 \<le> x \<Longrightarrow> c = 254"
    by (simp add: c_def min_def max_def)
  show "x < 0 \<Longrightarrow> c = 0"
    by (simp add: c_def min_def max_def)
qed

text \<open>
  Claim C4. For all integers \<open>r\<close>, \<open>g\<close>, \<open>b\<close> the encoding done by \<^verbatim>\<open>sendPixel\<close>
  raises nothing and yields three bytes, each at most 254; a channel of 255 or more
  becomes 254 and a negative channel becomes 0.
\<close>

theorem sendPixel_data_range:
  "\<exists>x y z. sendPixel_data r g b = Inr [x, y, z]
      \<and> unat x \<le> 254 \<and> unat y \<le> 254 \<and> unat z \<le> 254
      \<and> (255 \<le> r \<longrightarrow> x = 254) \<and> (255 \<le> g \<longrightarrow> y = 254) \<and> (255 \<le> b \<longrightarrow> z = 254)
      \<and> (r < 0 \<longrightarrow> x = 0) \<and> (g < 0 \<longrightarrow> y = 0) \<and> (b < 0 \<longrightarrow> z = 0)"
  using channel_byte [of r] channel_byte [of g] channel_byte [of b]
  by (simp add: sendPixel_data_eq)

theorem sendPixel_data_range_witness:
  "(255::int) \<le> 300 \<and> (-4::int) < 0 \<and> (255::int) \<le> 255
     \<and> sendPixel_data 300 (-4) 255 = Inr [254, 0, 254]"
  using sendPixel_data_range [of 300 "-4" 255] by auto

subsection \<open>sendPixel and the capacity check\<close>

lemma sendPixel_eq:
  "sendPixel s r g b =
     (if 9 < ledCount s
      then (if buffered s
            then (None, s\<lparr>buf := buf s @ [word_of_int (max 0 (min 254 r)),
                    word_of_int (max 0 (min 254 g)), word_of_int (max 0 (min 254 b))]\<rparr>)
            else (None, s\<lparr>serial := serial s @ [Write [word_of_int (max 0 (min 254 r)),
                    word_of_int (max 0 (min 254 g)), word_of_int (max 0 (min 254 b))], Flush]\<rparr>))
      else (Some (RuntimeError ''Attempting to set pixel outside range!''), s))"
  by (simp add: sendPixel_def sendPixel_data_eq)

text \<open>
  Claim C1. A call of \<^verbatim>\<open>sendPixel\<close> raises the capacity error exactly when
  \<open>9 \<ge> ledCount\<close>, whatever the buffer holds and whatever was sent before; when it
  raises, the object (the buffer with it) is as it was before the call, and when
  \<open>9 < ledCount\<close> it raises nothing.
\<close>

theorem sendPixel_capacity:
  "(fst (sendPixel s r g b) = Some (RuntimeError ''Attempting to set pixel outside range!''))
      = (9 \<ge> ledCount s)
   \<and> (9 \<ge> ledCount s \<longrightarrow> snd (sendPixel s r g b) = s)
   \<and> (\<not> 9 \<ge> ledCount s \<longrightarrow> fst (sendPixel s r g b) = None)"
  by (simp add: sendPixel_eq)

theorem sendPixel_capacity_witness:
  "9 \<ge> ledCount \<lparr>port = ''COM5'', ledCount = 9, buffered = True, buf = [1, 2, 3], serial = []\<rparr>
   \<and> sendPixel \<lparr>port = ''COM5'', ledCount = 9, buffered = True, buf = [1, 2, 3], serial = []\<rparr> 7 8 9
       = (Some (RuntimeError ''Attempting to set pixel outside range!''),
          \<lparr>port = ''COM5'', ledCount = 9, buffered = True, buf = [1, 2, 3], serial = []\<rparr>)"
  using sendPixel_capacity
    [of "\<lparr>port = ''COM5'', ledCount = 9, buffered = True, buf = [1, 2, 3], serial = []\<rparr>" 7 8 9]
  by (simp add: prod_eq_iff)

text \<open>
  Claim C6. In immediate mode (\<open>buffered\<close> false) a \<^verbatim>\<open>sendPixel\<close> call that
  passes the capacity check (\<open>9 < ledCount\<close>) adds to the port's calls exactly one
  write of the pixel's 3 encoded bytes and then one flush, and the buffer keeps its
  content.
\<close>

theorem sendPixel_immediate:
  "\<not> buffered s \<Longrightarrow> 9 < ledCount s \<Longrightarrow>
     \<exists>data. sendPixel_data r g b = Inr data \<and> length data = 3
       \<and> sendPixel s r g b = (None, s\<lparr>serial := serial s @ [Write data, Flush]\<rparr>)
       \<and> buf (snd (sendPixel s r g b)) = buf s"
  by (simp add: sendPixel_eq sendPixel_data_eq)

theorem sendPixel_immediate_witness:
  "\<exists>data. sendPixel_data 1 2 3 = Inr data \<and> length data = 3
     \<and> sendPixel \<lparr>port = ''COM5'', ledCount = 60, buffered = False, buf = [], serial = []\<rparr> 1 2 3
        = (None, \<lparr>port = ''COM5'', ledCount = 60, buffered = False, buf = [],
                   serial = [Write data, Flush]\<rparr>)"
  using sendPixel_immediate
    [of "\<lparr>port = ''COM5'', ledCount = 60, buffered = False, buf = [], serial = []\<rparr>" 1 2 3]
  by auto

subsection \<open>show and buffered sending\<close>

lemma show_tape_eq:
  "show_tape s =
     s\<lparr>serial := serial s @ [Write ((if buffered s then buf s else []) @ control), Flush, FlushInput],
       buf := (if buffered s then [] else buf s)\<rparr>"
  by (simp add: show_tape_def Let_def)

lemma show_tape_fields:
  "port (show_tape s) = port s" "ledCount (show_tape s) = ledCount s"
  "buffered (show_tape s) = buffered s"
  by (simp_all add: show_tape_def Let_def)

lemma writes_append: "writes (xs @ ys) = writes xs @ writes ys"
  by (induction xs rule: writes.induct) simp_all

text \<open>
  Claim C10. On a buffered object whose buffer is empty, two \<^verbatim>\<open>show\<close> calls in a
  row make exactly two writes, each of the control triplet \<open>(0, 0, 255)\<close> alone
  (each followed by the two flushes), and the buffer is empty afterwards.
\<close>

theorem show_twice:
  "buffered s \<Longrightarrow> buf s = [] \<Longrightarrow>
     show_tape (show_tape s)
       = s\<lparr>serial := serial s @ [Write [0, 0, 255], Flush, FlushInput,
                                   Write [0, 0, 255], Flush, FlushInput]\<rparr>
     \<and> writes (serial (show_tape (show_tape s))) = writes (serial s) @ [[0, 0, 255], [0, 0, 255]]
     \<and> buf (show_tape (show_tape s)) = []"
  by (cases s) (simp add: show_tape_eq control_def writes_append)

theorem show_twice_witness:
  "show_tape (show_tape \<lparr>port = ''COM5'', ledCount = 60, buffered = True, buf = [], serial = []\<rparr>)
     = \<lparr>port = ''COM5'', ledCount = 60, buffered = True, buf = [],
         serial = [Write [0, 0, 255], Flush, FlushInput, Write [0, 0, 255], Flush, FlushInput]\<rparr>"
  using show_twice [of "\<lparr>port = ''COM5'', ledCount = 60, buffered = True, buf = [], serial = []\<rparr>"]
  by simp

lemma sendPixels_buffered:
  "buffered s \<Longrightarrow> 9 < ledCount s \<Longrightarrow>
     sendPixels s ps =
       (None, s\<lparr>buf := buf s @ concat (map (\<lambda>(r, g, b).
          [word_of_int (max 0 (min 254 r)), word_of_int (max 0 (min 254 g)),
           word_of_int (max 0 (min 254 b))]) ps)\<rparr>)"
proof (induction ps arbitrary: s)
  case Nil
  then show ?case by simp
next
  case (Cons p ps)
  obtain r g b where p: "p = (r, g, b)"
    by (cases p) auto
  let ?d = "[word_of_int (max 0 (min 254 r)), word_of_int (max 0 (min 254 g)),
             word_of_int (max 0 (min 254 b))] :: byte list"
  have step: "sendPixel s r g b = (None, s\<lparr>buf := buf s @ ?d\<rparr>)"
    using Cons.prems by (simp add: sendPixel_eq)
  have "sendPixels (s\<lparr>buf := buf s @ ?d\<rparr>) ps =
          (None, s\<lparr>buf := buf s @ ?d\<rparr>\<lparr>buf := buf (s\<lparr>buf := buf s @ ?d\<rparr>) @ concat (map (\<lambda>(r, g, b).
          [word_of_int (max 0 (min 254 r)), word_of_int (max 0 (min 254 g)),
           word_of_int (max 0 (min 254 b))]) ps)\<rparr>)"
    by (rule Cons.IH) (use Cons.prems in simp_all)
  then show ?case
    by (simp add: p step)
qed

lemma encoded_list_all2:
  "list_all2 (\<lambda>(r, g, b) d. sendPixel_data r g b = Inr d) ps
     (map (\<lambda>(r, g, b). [word_of_int (max 0 (min 254 r)), word_of_int (max 0 (min 254 g)),
           word_of_int (max 0 (min 254 b))]) ps)"
  by (induction ps) (auto simp: sendPixel_data_eq)

text \<open>
  Claim C3. On a buffered object with an empty buffer and \<open>9 < ledCount\<close> (so that
  no call is rejected), sending the pixels \<open>ps\<close> one by one raises nothing and
  writes nothing; the \<^verbatim>\<open>show\<close> that follows makes one write, of the encoded
  triplets \<open>ds\<close> of \<open>ps\<close> in order followed by \<open>(0, 0, 255)\<close>, and leaves the
  buffer empty.
\<close>

theorem buffered_pixels_then_show:
  "buffered s \<Longrightarrow> buf s = [] \<Longrightarrow> 9 < ledCount s \<Longrightarrow>
     \<exists>s' ds. sendPixels s ps = (None, s')
       \<and> list_all2 (\<lambda>(r, g, b) d. sendPixel_data r g b = Inr d) ps ds
       \<and> serial s' = serial s
       \<and> show_tape s' = s\<lparr>serial := serial s @ [Write (concat ds @ [0, 0, 255]), Flush, FlushInput]\<rparr>
       \<and> buf (show_tape s') = []"
proof -
  assume mode: "buffered s" and empty: "buf s = []" and room: "9 < ledCount s"
  let ?ds = "map (\<lambda>(r, g, b). [word_of_int (max 0 (min 254 r)), word_of_int (max 0 (min 254 g)),
           word_of_int (max 0 (min 254 b)) :: byte]) ps"
  let ?s' = "s\<lparr>buf := concat ?ds\<rparr>"
  have sent: "sendPixels s ps = (None, ?s')"
    using sendPixels_buffered [OF mode room, of ps] empty by simp
  have enc: "list_all2 (\<lambda>(r, g, b) d. sendPixel_data r g b = Inr d) ps ?ds"
    by (rule encoded_list_all2)
  have shown: "show_tape ?s' = s\<lparr>serial := serial s @ [Write (concat ?ds @ [0, 0, 255]), Flush, FlushInput]\<rparr>"
    using mode empty by (cases s) (simp add: show_tape_eq control_def)
  have "buf (show_tape ?s') = []"
    using mode by (simp add: show_tape_eq)
  with sent enc shown show ?thesis
    by (intro exI [of _ ?s'] exI [of _ ?ds]) simp
qed

theorem buffered_pixels_then_show_witness:
  "\<exists>s' ds. sendPixels \<lparr>port = ''COM5'', ledCount = 60, buffered = True, buf = [], serial = []\<rparr>
                 [(1, 2, 3), (300, -4, 17)] = (None, s')
     \<and> list_all2 (\<lambda>(r, g, b) d. sendPixel_data r g b = Inr d) [(1, 2, 3), (300, -4, 17)] ds
     \<and> show_tape s' = \<lparr>port = ''COM5'', ledCount = 60, buffered = True, buf = [],
                          serial = [Write (concat ds @ [0, 0, 255]), Flush, FlushInput]\<rparr>"
  using buffered_pixels_then_show
    [of "\<lparr>port = ''COM5'', ledCount = 60, buffered = True, buf = [], serial = []\<rparr>"
        "[(1, 2, 3), (300, -4, 17)]"]
  by auto

subsection \<open>The bulk path\<close>

lemma send_list_data_nonneg:
  "list_all (\<lambda>(r, g, b). 0 \<le> r \<and> 0 \<le> g \<and> 0 \<le> b) colors \<Longrightarrow>
     send_list_data colors data =
       Inr (data @ concat (map (\<lambda>(r, g, b).
              [word_of_int (min 254 r), word_of_int (min 254 g), word_of_int (min 254 b)]) colors))"
proof (induction colors arbitrary: data)
  case Nil
  then show ?case by simp
next
  case (Cons c colors)
  obtain r g b where c: "c = (r, g, b)"
    by (cases c) auto
  have ok: "0 \<le> r" "0 \<le> g" "0 \<le> b"
    using Cons.prems by (simp_all add: c)
  have upper: "\<And>x::int. (if x \<ge> 255 then 254 else x) = min 254 x"
    by (simp add: min_def)
  have packed: "bytearray [min 254 r, min 254 g, min 254 b]
      = Inr [word_of_int (min 254 r), word_of_int (min 254 g), word_of_int (min 254 b)]"
    using ok by (simp add: bytearray_def min_def)
  have rest: "list_all (\<lambda>(r, g, b). 0 \<le> r \<and> 0 \<le> g \<and> 0 \<le> b) colors"
    using Cons.prems by simp
  show ?case
    by (simp add: c Let_def upper packed Cons.IH [OF rest])
qed

lemma bytearray_Inl:
  "bytearray xs = Inl e \<Longrightarrow> e = ValueError ''byte must be in range(0, 256)''"
  by (simp add: bytearray_def split: if_splits)

lemma send_list_data_negative:
  "\<not> list_all (\<lambda>(r, g, b). 0 \<le> r \<and> 0 \<le> g \<and> 0 \<le> b) colors \<Longrightarrow>
     send_list_data colors data = Inl (ValueError ''byte must be in range(0, 256)'')"
proof (induction colors arbitrary: data)
  case Nil
  then show ?case by simp
next
  case (Cons c colors)
  obtain r g b where c: "c = (r, g, b)"
    by (cases c) auto
  define xs where "xs = [if r \<ge> 255 then 254 else r, if g \<ge> 255 then 254 else g,
                         if b \<ge> 255 then 254 else b]"
  have unfolded: "send_list_data (c # colors) data =
      (case bytearray xs of Inl e \<Rightarrow> Inl e | Inr d \<Rightarrow> send_list_data colors (data @ d))"
    unfolding c xs_def send_list_data.simps Let_def ..
  show ?case
  proof (cases "bytearray xs")
    case (Inl e)
    then show ?thesis
      using bytearray_Inl [OF Inl] by (simp add: unfolded)
  next
    case (Inr d)
    then have "list_all (\<lambda>x. 0 \<le> x \<and> x < 256) xs"
      by (simp add: bytearray_def split: if_splits)
    then have "0 \<le> r \<and> 0 \<le> g \<and> 0 \<le> b"
      by (simp add: xs_def split: if_splits)
    then have "\<not> list_all (\<lambda>(r, g, b). 0 \<le> r \<and> 0 \<le> g \<and> 0 \<le> b) colors"
      using Cons.prems by (simp add: c)
    then have "send_list_data colors (data @ d) = Inl (ValueError ''byte must be in range(0, 256)'')"
      by (rule Cons.IH)
    then show ?thesis
      by (simp add: unfolded Inr)
  qed
qed

text \<open>
  Claim C5 says that \<^verbatim>\<open>send_list\<close> neither reads nor modifies the buffer. The
  \<^verbatim>\<open>show\<close> that ends it does both in buffered mode: with the bytes 1, 2, 3
  buffered, \<^verbatim>\<open>send_list\<close> of the pixel (4, 5, 6) writes 4, 5, 6, then writes the
  buffered bytes with the control triplet, and leaves the buffer empty.
\<close>

theorem send_list_clears_buffer_counterexample:
  "send_list \<lparr>port = ''COM5'', ledCount = 60, buffered = True, buf = [1, 2, 3], serial = []\<rparr>
       [(4, 5, 6)]
     = (None, \<lparr>port = ''COM5'', ledCount = 60, buffered = True, buf = [],
                serial = [Write [4, 5, 6], Write [1, 2, 3, 0, 0, 255], Flush, FlushInput]\<rparr>)"
  by (simp add: send_list_def bytearray_def show_tape_def control_def Let_def)

text \<open>
  Claim C5, amended. When \<^verbatim>\<open>send_list\<close> has packed its colours into \<open>data\<close>, it
  writes \<open>data\<close> to the port at once, in a write of its own, in buffered and in
  immediate mode alike, and never puts it in the buffer. The \<^verbatim>\<open>show\<close> that ends
  the call then writes, in buffered mode, what the buffer held followed by the
  control triplet and empties the buffer; in immediate mode it writes the control
  triplet alone and the buffer keeps its content.
\<close>

theorem send_list_accumulator:
  "send_list_data colors [] = Inr data \<Longrightarrow>
     send_list s colors =
       (None, s\<lparr>serial := serial s @ [Write data,
                    Write ((if buffered s then buf s else []) @ [0, 0, 255]), Flush, FlushInput],
                 buf := (if buffered s then [] else buf s)\<rparr>)
     \<and> (buffered s \<longrightarrow> buf (snd (send_list s colors)) = [])
     \<and> (\<not> buffered s \<longrightarrow> buf (snd (send_list s colors)) = buf s)"
  by (simp add: send_list_def show_tape_eq control_def)

theorem send_list_accumulator_witness:
  "send_list_data [(4, 5, 6)] [] = Inr [4, 5, 6]
   \<and> send_list \<lparr>port = ''COM5'', ledCount = 60, buffered = False, buf = [1, 2, 3], serial = []\<rparr>
        [(4, 5, 6)]
      = (None, \<lparr>port = ''COM5'', ledCount = 60, buffered = False, buf = [1, 2, 3],
                 serial = [Write [4, 5, 6], Write [0, 0, 255], Flush, FlushInput]\<rparr>)"
proof -
  have d: "send_list_data [(4, 5, 6)] [] = Inr [4, 5, 6]"
    by (simp add: bytearray_def)
  show ?thesis
    using d send_list_accumulator [OF d,
      of "\<lparr>port = ''COM5'', ledCount = 60, buffered = False, buf = [1, 2, 3], serial = []\<rparr>"]
    by simp
qed

text \<open>
  Claim C7 says that \<^verbatim>\<open>send_list\<close> passes negative channels through and writes
  every sequence of colours. A negative channel is not clamped, so
  \<^verbatim>\<open>bytearray\<close> rejects it: the call raises \<^verbatim>\<open>ValueError\<close> before anything is
  written, and no \<^verbatim>\<open>show\<close> follows.
\<close>

theorem send_list_negative_counterexample:
  "send_list \<lparr>port = ''COM5'', ledCount = 60, buffered = True, buf = [], serial = []\<rparr>
       [(-1, 0, 0)]
     = (Some (ValueError ''byte must be in range(0, 256)''),
        \<lparr>port = ''COM5'', ledCount = 60, buffered = True, buf = [], serial = []\<rparr>)"
  by (simp add: send_list_def bytearray_def)

text \<open>
  Claim C7, amended. For every sequence of colours without a negative channel,
  \<^verbatim>\<open>send_list\<close> clamps each channel at the upper bound only (255 or more becomes
  254, anything else is kept), concatenates the triplets in order, writes them to
  the port in a single write, and then performs \<^verbatim>\<open>show\<close>.
\<close>

theorem send_list_nonneg:
  "list_all (\<lambda>(r, g, b). 0 \<le> r \<and> 0 \<le> g \<and> 0 \<le> b) colors \<Longrightarrow>
     send_list s colors =
       (None, show_tape (s\<lparr>serial := serial s @
          [Write (concat (map (\<lambda>(r, g, b).
             [word_of_int (min 254 r), word_of_int (min 254 g), word_of_int (min 254 b)]) colors))]\<rparr>))"
  by (simp add: send_list_def send_list_data_nonneg)

theorem send_list_nonneg_witness:
  "list_all (\<lambda>(r, g, b). 0 \<le> r \<and> 0 \<le> g \<and> 0 \<le> b) [(300 :: int, 0 :: int, 255 :: int), (1, 2, 3)]
   \<and> send_list \<lparr>port = ''COM5'', ledCount = 60, buffered = False, buf = [], serial = []\<rparr>
        [(300, 0, 255), (1, 2, 3)]
      = (None, \<lparr>port = ''COM5'', ledCount = 60, buffered = False, buf = [],
                 serial = [Write [254, 0, 254, 1, 2, 3], Write [0, 0, 255], Flush, FlushInput]\<rparr>)"
  using send_list_nonneg
    [of "[(300, 0, 255), (1, 2, 3)]"
        "\<lparr>port = ''COM5'', ledCount = 60, buffered = False, buf = [], serial = []\<rparr>"]
  by (simp add: show_tape_eq control_def)

subsection \<open>Opening the tape\<close>

text \<open>
  Claim C8. When the constructor gets no port and \<^verbatim>\<open>listPorts\<close> returns no
  candidate, it raises \<^verbatim>\<open>IOError("BlinkyTape not found!")\<close>; \<^verbatim>\<open>listPorts\<close> has
  been called once and no serial port has been opened.
\<close>

theorem init_no_ports:
  "listPorts h (listPorts_calls w) = [] \<Longrightarrow>
     init h w None n bf
       = (Inl (IOError ''BlinkyTape not found!''), w\<lparr>listPorts_calls := Suc (listPorts_calls w)\<rparr>)
     \<and> opened (snd (init h w None n bf)) = opened w"
  by (simp add: init_def)

theorem init_no_ports_witness:
  "listPorts \<lparr>listPorts = (\<lambda>k. []), openable = (\<lambda>p. True)\<rparr>
       (listPorts_calls \<lparr>listPorts_calls = 0, opened = []\<rparr>) = []
   \<and> init \<lparr>listPorts = (\<lambda>k. []), openable = (\<lambda>p. True)\<rparr>
        \<lparr>listPorts_calls = 0, opened = []\<rparr> None 60 True
      = (Inl (IOError ''BlinkyTape not found!''), \<lparr>listPorts_calls = 1, opened = []\<rparr>)"
  using init_no_ports
    [of "\<lparr>listPorts = (\<lambda>k. []), openable = (\<lambda>p. True)\<rparr>"
        "\<lparr>listPorts_calls = 0, opened = []\<rparr>" 60 True]
  by simp

lemma init_lists_ports_twice:
  "listPorts h (listPorts_calls w) \<noteq> [] \<Longrightarrow>
     listPorts_calls (snd (init h w None n bf)) = listPorts_calls w + 2"
  by (simp add: init_def Let_def split: list.split)

lemma init_takes_second_listing:
  "listPorts h (listPorts_calls w) \<noteq> [] \<Longrightarrow>
   listPorts h (Suc (listPorts_calls w)) = p # rest \<Longrightarrow> openable h p \<Longrightarrow>
     fst (init h w None n bf)
       = Inr \<lparr>port = p, ledCount = n, buffered = bf, buf = [],
              serial = [Write [0, 0, 255], Flush, FlushInput]\<rparr>"
  by (simp add: init_def Let_def show_tape_def control_def)

text \<open>
  Claim C9 asks for one call of \<^verbatim>\<open>listPorts\<close> whose first candidate becomes the
  port. The constructor calls it on line 43 and again on line 47, and takes the
  port from the second result: on a host whose first listing is \<^verbatim>\<open>/dev/ttyACM0\<close>
  and whose later listings are \<^verbatim>\<open>/dev/ttyACM1\<close>, two calls are made and
  \<^verbatim>\<open>/dev/ttyACM1\<close> is opened.
\<close>

theorem init_second_listing:
  "init \<lparr>listPorts = (\<lambda>k. if k = 0 then [''/dev/ttyACM0''] else [''/dev/ttyACM1'']),
         openable = (\<lambda>p. True)\<rparr>
       \<lparr>listPorts_calls = 0, opened = []\<rparr> None 60 True
     = (Inr \<lparr>port = ''/dev/ttyACM1'', ledCount = 60, buffered = True, buf = [],
              serial = [Write [0, 0, 255], Flush, FlushInput]\<rparr>,
        \<lparr>listPorts_calls = 2, opened = [(''/dev/ttyACM1'', 115200)]\<rparr>)"
  by (simp add: init_def Let_def show_tape_def control_def)

subsection \<open>Whole pixels in the buffer\<close>

lemma sendPixel_triplets:
  "3 dvd length (buf s) \<Longrightarrow> 3 dvd length (buf (snd (sendPixel s r g b)))"
proof -
  assume "3 dvd length (buf s)"
  then have "3 dvd Suc (Suc (Suc (length (buf s))))"
    by presburger
  then show ?thesis
    using \<open>3 dvd length (buf s)\<close> by (simp add: sendPixel_eq)
qed

lemma sendPixels_triplets:
  "3 dvd length (buf s) \<Longrightarrow> 3 dvd length (buf (snd (sendPixels s ps)))"
proof (induction ps arbitrary: s)
  case Nil
  then show ?case by simp
next
  case (Cons p ps)
  obtain r g b where p: "p = (r, g, b)"
    by (cases p) auto
  obtain e s' where step: "sendPixel s r g b = (e, s')"
    by (cases "sendPixel s r g b") auto
  have s': "3 dvd length (buf s')"
    using sendPixel_triplets [OF Cons.prems, of r g b] by (simp add: step)
  show ?case
  proof (cases e)
    case None
    then show ?thesis
      using Cons.IH [OF s'] by (simp add: p step)
  next
    case (Some x)
    then show ?thesis
      using s' by (simp add: p step)
  qed
qed

lemma show_tape_triplets:
  "3 dvd length (buf s) \<Longrightarrow> 3 dvd length (buf (show_tape s))"
  by (simp add: show_tape_eq)

lemma send_list_triplets:
  "3 dvd length (buf s) \<Longrightarrow> 3 dvd length (buf (snd (send_list s colors)))"
  by (simp add: send_list_def show_tape_eq split: sum.split)

lemma displayColor_triplets:
  "3 dvd length (buf s) \<Longrightarrow> 3 dvd length (buf (snd (displayColor s r g b)))"
proof -
  assume "3 dvd length (buf s)"
  then have "3 dvd length (buf (snd (sendPixels s (replicate (nat (ledCount s)) (r, g, b)))))"
    by (rule sendPixels_triplets)
  then show ?thesis
    by (auto simp: displayColor_def show_tape_eq split: prod.split option.split)
qed

lemma do_call_triplets:
  "3 dvd length (buf s) \<Longrightarrow> 3 dvd length (buf (snd (do_call s c)))"
  by (cases c)
    (simp_all add: sendPixel_triplets send_list_triplets show_tape_triplets displayColor_triplets)

lemma run_triplets:
  "3 dvd length (buf s) \<Longrightarrow> 3 dvd length (buf (run s cs))"
  by (induction cs arbitrary: s) (simp_all add: do_call_triplets)

lemma init_triplets:
  "fst (init h w p n bf) = Inr s \<Longrightarrow> 3 dvd length (buf (run s cs))"
proof -
  assume "fst (init h w p n bf) = Inr s"
  then have "buf s = []"
    by (auto simp: init_def Let_def show_tape_eq split: option.splits list.splits if_splits)
  then show ?thesis
    by (simp add: run_triplets)
qed

text \<open>
  Claim C2 asks that the buffer never holds more pixels than \<^verbatim>\<open>ledCount\<close>. Its
  length is always a multiple of 3 (\<open>init_triplets\<close>), but the check of
  \<^verbatim>\<open>sendPixel\<close> compares 9 with \<^verbatim>\<open>ledCount\<close> and never looks at the buffer: on an
  object opened with \<^verbatim>\<open>ledCount = 10\<close> in buffered mode, eleven \<^verbatim>\<open>sendPixel\<close>
  calls leave 11 pixels in the buffer.
\<close>

theorem capacity_not_enforced:
  "fst (init \<lparr>listPorts = (\<lambda>k. []), openable = (\<lambda>p. True)\<rparr> \<lparr>listPorts_calls = 0, opened = []\<rparr>
          (Some ''COM5'') 10 True)
     = Inr \<lparr>port = ''COM5'', ledCount = 10, buffered = True, buf = [],
            serial = [Write [0, 0, 255], Flush, FlushInput]\<rparr>
   \<and> length (buf (run \<lparr>port = ''COM5'', ledCount = 10, buffered = True, buf = [],
                        serial = [Write [0, 0, 255], Flush, FlushInput]\<rparr>
                      (replicate 11 (SendPixel 1 2 3)))) div 3 = 11
   \<and> ledCount (run \<lparr>port = ''COM5'', ledCount = 10, buffered = True, buf = [],
                     serial = [Write [0, 0, 255], Flush, FlushInput]\<rparr>
                   (replicate 11 (SendPixel 1 2 3))) = 10"
  by code_simp

end
